theory Spec2Isabelle
  imports Main "HOL-Library.Sublist"
begin

section \<open>Python values and exceptions\<close>

text \<open>
  The records returned by the remote API are decoded JSON: nested dictionaries, lists,
  strings, integers, booleans and \<open>None\<close>. The provider handles them as untyped Python
  values (\<open>List[any]\<close>, \<open>Dict[str, any]\<close>), so the model is a datatype of dynamic values.
  A dictionary is an association list in insertion order, as a Python \<open>dict\<close> keeps it.
  Floating-point numbers are not modelled.
\<close>

datatype pyval =
    PNone
  | PBool bool
  | PInt int
  | PStr string
  | PList "pyval list"
  | PDict "(pyval \<times> pyval) list"

text \<open>
  The exceptions the provider can meet. \<open>KeyError\<close> carries the missing key.
  \<open>StripeError\<close> is the base class of the remote client's errors: the constructor stands
  for a generic remote API error, an instance of the base class itself or of a subclass the
  provider does not name. \<open>AuthenticationError\<close> and \<open>APIConnectionError\<close> are the two
  subclasses the provider imports by name. \<open>RetryError\<close> is the retry library's own
  exception, and \<open>OtherException\<close> any further exception, by its class name.
  Every class here derives from Python's \<open>Exception\<close>; signals that derive from
  \<open>BaseException\<close> only (task cancellation, a keyboard interrupt) are not modelled.
\<close>

datatype exn =
    AttributeError
  | KeyError pyval
  | TypeError
  | StripeError
  | AuthenticationError
  | APIConnectionError
  | RetryError
  | OtherException string

text \<open>\<open>isinstance(e, StripeError)\<close> and \<open>isinstance(e, Exception)\<close>.\<close>

fun is_StripeError :: "exn \<Rightarrow> bool" where
  "is_StripeError StripeError = True"
| "is_StripeError AuthenticationError = True"
| "is_StripeError APIConnectionError = True"
| "is_StripeError e = False"

definition is_Exception :: "exn \<Rightarrow> bool" where
  "is_Exception e = True"

text \<open>Sequencing of computations that may raise: the first exception aborts the rest.\<close>

definition bind_e :: "exn + 'a \<Rightarrow> ('a \<Rightarrow> exn + 'b) \<Rightarrow> exn + 'b" where
  "bind_e m f = (case m of Inl e \<Rightarrow> Inl e | Inr x \<Rightarrow> f x)"

subsection \<open>Dictionaries\<close>

text \<open>
  Lists and dictionaries are unhashable and cannot be dictionary keys. Among the hashable
  values, \<open>True\<close> and \<open>1\<close> (and \<open>False\<close> and \<open>0\<close>) are equal and hash alike, so they name
  the same key; \<open>key_norm\<close> maps a key to the representative that decides key equality.
\<close>

fun hashable :: "pyval \<Rightarrow> bool" where
  "hashable (PList xs) = False"
| "hashable (PDict kvs) = False"
| "hashable v = True"

fun key_norm :: "pyval \<Rightarrow> pyval" where
  "key_norm (PBool b) = PInt (if b then 1 else 0)"
| "key_norm v = v"

fun dict_get :: "(pyval \<times> pyval) list \<Rightarrow> pyval \<Rightarrow> pyval option" where
  "dict_get [] k = None"
| "dict_get ((k', v) # kvs) k = (if key_norm k' = key_norm k then Some v else dict_get kvs k)"

text \<open>
  \<open>d[k] = v\<close>: an existing key keeps its place (and the key object first inserted) and
  gets the new value; a new key is appended.
\<close>

fun dict_set :: "(pyval \<times> pyval) list \<Rightarrow> pyval \<Rightarrow> pyval \<Rightarrow> (pyval \<times> pyval) list" where
  "dict_set [] k v = [(k, v)]"
| "dict_set ((k', v') # kvs) k v =
     (if key_norm k' = key_norm k then (k', v) # kvs else (k', v') # dict_set kvs k v)"

text \<open>
  \<open>v[k]\<close> for a string literal \<open>k\<close>, the only subscripts the provider writes: a dictionary
  raises \<open>KeyError\<close> on a missing key; a list or a string wants an integer index and any
  other value is not subscriptable, both \<open>TypeError\<close>.
\<close>

definition getitem :: "pyval \<Rightarrow> string \<Rightarrow> exn + pyval" where
  "getitem v k =
     (case v of
        PDict kvs \<Rightarrow>
          (case dict_get kvs (PStr k) of
             None \<Rightarrow> Inl (KeyError (PStr k))
           | Some x \<Rightarrow> Inr x)
      | _ \<Rightarrow> Inl TypeError)"

text \<open>
  \<open>s in v\<close> for a string literal \<open>s\<close>: substring containment in a string (case-sensitive,
  as Python compares the characters), membership in a list, key membership in a
  dictionary; any other value is not iterable.
\<close>

definition contains :: "string \<Rightarrow> pyval \<Rightarrow> exn + bool" where
  "contains s v =
     (case v of
        PStr t \<Rightarrow> Inr (sublist s t)
      | PList xs \<Rightarrow> Inr (List.member xs (PStr s))
      | PDict kvs \<Rightarrow> Inr (dict_get kvs (PStr s) \<noteq> None)
      | _ \<Rightarrow> Inl TypeError)"

text \<open>
  \<open>for x in v\<close>: the elements of a list, the keys of a dictionary, the one-character
  strings of a string; any other value is not iterable.
\<close>

definition iter :: "pyval \<Rightarrow> exn + pyval list" where
  "iter v =
     (case v of
        PList xs \<Rightarrow> Inr xs
      | PDict kvs \<Rightarrow> Inr (map fst kvs)
      | PStr t \<Rightarrow> Inr (map (\<lambda>c. PStr [c]) t)
      | _ \<Rightarrow> Inl TypeError)"

section \<open>The record aggregator\<close>

subsection \<open>\<open>parse_invoice_lines\<close>\<close>

text \<open>
  One pass of the loop body \<open>result[line["price"]["product"]] = {"type": ..., "amount": ...,
  "description": ...}\<close>. Python evaluates the right-hand side first, then the subscript of
  the target, then stores, which is where an unhashable product identifier raises.
\<close>

definition parse_invoice_line :: "(pyval \<times> pyval) list \<Rightarrow> pyval \<Rightarrow> exn + (pyval \<times> pyval) list" where
  "parse_invoice_line result line =
     bind_e (getitem line ''type'') (\<lambda>ty.
     bind_e (getitem line ''amount'') (\<lambda>am.
     bind_e (getitem line ''description'') (\<lambda>de.
     bind_e (getitem line ''price'') (\<lambda>pr.
     bind_e (getitem pr ''product'') (\<lambda>prod.
       if hashable prod
       then Inr (dict_set result prod
              (PDict [(PStr ''type'', ty), (PStr ''amount'', am), (PStr ''description'', de)]))
       else Inl TypeError)))))"

fun parse_invoice_loop :: "(pyval \<times> pyval) list \<Rightarrow> pyval list \<Rightarrow> exn + (pyval \<times> pyval) list" where
  "parse_invoice_loop result [] = Inr result"
| "parse_invoice_loop result (line # rest) =
     bind_e (parse_invoice_line result line) (\<lambda>result'. parse_invoice_loop result' rest)"

definition parse_invoice_lines :: "pyval \<Rightarrow> exn + (pyval \<times> pyval) list" where
  "parse_invoice_lines lines = bind_e (iter lines) (parse_invoice_loop [])"

subsection \<open>\<open>update_customer_record\<close>\<close>

text \<open>
  \<open>customers[customer][record_type].extend(data)\<close>, for a customer that is a key of
  \<open>customers\<close>. Only a list has \<open>extend\<close>; extending a list by a dictionary appends the
  dictionary's keys, in place, so the list stored in the entry changes. Every other value
  has no attribute \<open>extend\<close>.
\<close>

definition extend_existing ::
  "(pyval \<times> pyval) list \<Rightarrow> pyval \<Rightarrow> pyval \<Rightarrow> string \<Rightarrow> (pyval \<times> pyval) list
     \<Rightarrow> exn + (pyval \<times> pyval) list" where
  "extend_existing customers customer entry record_type data =
     bind_e (getitem entry record_type) (\<lambda>coll.
       case coll of
         PList xs \<Rightarrow>
           (case entry of
              PDict fields \<Rightarrow>
                Inr (dict_set customers customer
                      (PDict (dict_set fields (PStr record_type) (PList (xs @ map fst data)))))
            | _ \<Rightarrow> Inl TypeError)
       | _ \<Rightarrow> Inl AttributeError)"

text \<open>
  The parameter \<open>data\<close> defaults to \<open>None\<close>, and is then built from the record as
  \<open>{record["id"]: record["status"]}\<close>. The membership test \<open>customer in customers\<close>
  hashes the customer.
\<close>

definition update_customer_record ::
  "(pyval \<times> pyval) list \<Rightarrow> pyval \<Rightarrow> string \<Rightarrow> (pyval \<times> pyval) list option
     \<Rightarrow> exn + (pyval \<times> pyval) list" where
  "update_customer_record customers record record_type data =
     bind_e (getitem record ''customer'') (\<lambda>customer.
     bind_e (case data of
               None \<Rightarrow>
                 bind_e (getitem record ''id'') (\<lambda>rid.
                 bind_e (getitem record ''status'') (\<lambda>st.
                   if hashable rid then Inr [(rid, st)] else Inl TypeError))
             | Some d \<Rightarrow> Inr d) (\<lambda>data'.
       if \<not> hashable customer then Inl TypeError
       else (case dict_get customers customer of
               Some entry \<Rightarrow> extend_existing customers customer entry record_type data'
             | None \<Rightarrow>
                 Inr (customers @ [(customer, PDict [(PStr record_type, PDict data')])]))))"

subsection \<open>The aggregation loop\<close>

text \<open>
  The body of the loop of the provider's processing method, for one record and the
  dictionary \<open>processed_records\<close> built so far. \<open>continue\<close> leaves the dictionary as it is.
  In the assignment of the first branch the right-hand side \<open>record["id"]\<close> is evaluated
  before the key \<open>record["email"]\<close>. The source reads \<open>record["object"]\<close> anew in each
  \<open>elif\<close>; the read has no effect and gives the same value, so it is bound once.
\<close>

definition process_record :: "(pyval \<times> pyval) list \<Rightarrow> pyval \<Rightarrow> exn + (pyval \<times> pyval) list" where
  "process_record processed_records record =
     bind_e (getitem record ''object'') (\<lambda>obj.
     bind_e (contains ''customer'' obj) (\<lambda>is_customer.
       if is_customer then
         bind_e (getitem record ''id'') (\<lambda>rid.
         bind_e (getitem record ''email'') (\<lambda>email.
           if hashable email
           then Inr (dict_set processed_records email (PDict [(PStr ''id'', rid)]))
           else Inl TypeError))
       else
     bind_e (contains ''invoice'' obj) (\<lambda>is_invoice.
       if is_invoice then
         bind_e (getitem record ''status'') (\<lambda>st.
         bind_e (contains ''paid'' st) (\<lambda>paid.
           if \<not> paid then Inr processed_records
           else
             bind_e (getitem record ''lines'') (\<lambda>lines.
             bind_e (getitem lines ''data'') (\<lambda>lines_data.
             bind_e (parse_invoice_lines lines_data) (\<lambda>products.
               update_customer_record processed_records record ''products'' (Some products))))))
       else
     bind_e (contains ''subscription'' obj) (\<lambda>is_subscription.
       if is_subscription then
         bind_e (getitem record ''status'') (\<lambda>st.
         bind_e (contains ''active'' st) (\<lambda>active.
           if \<not> active then Inr processed_records
           else update_customer_record processed_records record ''subscriptions'' None))
       else
     bind_e (contains ''payment_intent'' obj) (\<lambda>is_payment.
       if is_payment then
         bind_e (getitem record ''status'') (\<lambda>st.
         bind_e (contains ''succeeded'' st) (\<lambda>succeeded.
           if \<not> succeeded then Inr processed_records
           else update_customer_record processed_records record ''payments'' None))
       else Inr processed_records)))))"

fun process_loop :: "(pyval \<times> pyval) list \<Rightarrow> pyval list \<Rightarrow> exn + (pyval \<times> pyval) list" where
  "process_loop processed_records [] = Inr processed_records"
| "process_loop processed_records (record # rest) =
     bind_e (process_record processed_records record) (\<lambda>processed_records'.
       process_loop processed_records' rest)"

text \<open>
  The processing method itself (\<open>_process_\<close> in the source): the loop started on the
  empty dictionary. The result is the dictionary, or the exception that escaped.
\<close>

definition process :: "pyval list \<Rightarrow> exn + (pyval \<times> pyval) list" where
  "process records = process_loop [] records"

section \<open>The retry configuration\<close>

text \<open>
  Modelled from the spec: the retry engine (the loop that calls the operation again) is the
  retry library's and is not part of the provider's source, which only configures it.
  The loop below follows section 4.1 of the specification: attempts are counted from 1;
  after each attempt the \<open>retry\<close> predicate decides whether the outcome is final (a result
  is returned, an error re-raised at once); otherwise, when the attempt bound is reached,
  the policy gives up, and with \<open>reraise\<close> it re-raises the last error unchanged instead of
  wrapping it in \<open>RetryError\<close>; otherwise it waits and tries again. The randomized
  exponential wait (\<open>wait\<close>) only delays the next attempt and is not modelled.
  An operation is given by its outcome on each attempt.
\<close>

record 'a retry_config =
  stop_after_attempt :: nat
  retry :: "exn + 'a \<Rightarrow> bool"
  reraise :: bool

text \<open>
  \<open>retry_unless_exception_type(cls)\<close>, the library's predicate that retries until an
  exception of class \<open>cls\<close> is raised: an attempt that raised such an exception is final,
  an attempt that raised another exception, or none, is retried.
\<close>

definition retry_unless_exception_type :: "(exn \<Rightarrow> bool) \<Rightarrow> exn + 'a \<Rightarrow> bool" where
  "retry_unless_exception_type cls outcome =
     (case outcome of Inr r \<Rightarrow> True | Inl e \<Rightarrow> \<not> cls e)"

text \<open>The provider's \<open>RETRY_CONFIG\<close>, as the source gives it.\<close>

definition RETRY_CONFIG :: "'a retry_config" where
  "RETRY_CONFIG =
     \<lparr> stop_after_attempt = 10,
       retry = retry_unless_exception_type is_StripeError,
       reraise = True \<rparr>"

text \<open>
  The loop from attempt \<open>n\<close> on. It returns what the caller observes (a result, or the
  exception raised to it) and the number of the last attempt, which is the number of times
  the operation has been invoked.
\<close>

function attempt_from :: "'a retry_config \<Rightarrow> (nat \<Rightarrow> exn + 'a) \<Rightarrow> nat \<Rightarrow> (exn + 'a) \<times> nat" where
  "attempt_from cfg operation n =
     (let outcome = operation n in
      if \<not> retry cfg outcome then (outcome, n)
      else if stop_after_attempt cfg \<le> n then
        ((if reraise cfg
          then (case outcome of Inl e \<Rightarrow> Inl e | Inr r \<Rightarrow> Inl RetryError)
          else Inl RetryError), n)
      else attempt_from cfg operation (Suc n))"
  by pat_completeness auto
termination
  by (relation "measure (\<lambda>(cfg, operation, n). stop_after_attempt cfg - n)") auto

definition execute :: "'a retry_config \<Rightarrow> (nat \<Rightarrow> exn + 'a) \<Rightarrow> (exn + 'a) \<times> nat" where
  "execute cfg operation = attempt_from cfg operation 1"

section \<open>The resource fetcher\<close>

record StripeRequestParams =
  stripe_account :: "string option"
  stripe_version :: "string option"
  expand :: "string list option"

text \<open>\<open>request_params.dict(exclude_none=True)\<close>: the fields that are set, in field order.\<close>

definition request_params_dict :: "StripeRequestParams \<Rightarrow> (pyval \<times> pyval) list" where
  "request_params_dict p =
     (case stripe_account p of None \<Rightarrow> [] | Some a \<Rightarrow> [(PStr ''stripe_account'', PStr a)]) @
     (case stripe_version p of None \<Rightarrow> [] | Some v \<Rightarrow> [(PStr ''stripe_version'', PStr v)]) @
     (case expand p of None \<Rightarrow> [] | Some xs \<Rightarrow> [(PStr ''expand'', PList (map PStr xs))])"

text \<open>
  The remote client is a parameter of the model. \<open>getattr(stripe, name)\<close> finds no
  attribute, or an attribute without a \<open>list\<close> method (a setting, a helper), or a resource
  whose \<open>list\<close> call, given the request parameters, returns a response or raises.
\<close>

datatype attribute =
    Resource "(pyval \<times> pyval) list \<Rightarrow> exn + pyval"
  | NotAResource

type_synonym stripe_client = "string \<Rightarrow> attribute option"

datatype log_line =
    LogDebug string
  | LogError string
  | LogErrorWith string exn

text \<open>The body of the \<open>try\<close> block of the fetch method.\<close>

definition fetch_try :: "stripe_client \<Rightarrow> string \<Rightarrow> (pyval \<times> pyval) list \<Rightarrow> exn + pyval" where
  "fetch_try client url request_params =
     (case client url of
        None \<Rightarrow> Inl AttributeError
      | Some NotAResource \<Rightarrow> Inl AttributeError
      | Some (Resource list_call) \<Rightarrow>
          bind_e (list_call request_params) (\<lambda>response. getitem response ''data''))"

text \<open>The message of the first handler, which quotes an example with apostrophes.\<close>

definition wrong_resource_message :: string where
  "wrong_resource_message =
     ''wrong stripe resource, for example '' @ [CHR 0x27] @ ''url'' @ [CHR 0x27] @ '':''
       @ [CHR 0x27] @ ''Customer'' @ [CHR 0x27]"

text \<open>
  The fetch method (\<open>_fetch_\<close> in the source) for the resource name \<open>url\<close>: the records and
  the lines logged, or the exception that no handler caught. The handlers are tried in
  the order of the source; an exception that none matches propagates.
\<close>

definition fetch :: "stripe_client \<Rightarrow> string \<Rightarrow> StripeRequestParams \<Rightarrow> exn + (pyval \<times> log_line list)" where
  "fetch client url params =
     (let log0 = [LogDebug (''StripeFetchProvider fetching from '' @ url)];
          request_params = request_params_dict params;
          result = PList []
      in case fetch_try client url request_params of
           Inr data \<Rightarrow> Inr (data, log0)
         | Inl e \<Rightarrow>
             if e = AttributeError then
               Inr (result, log0 @ [LogError wrong_resource_message])
             else if e = AuthenticationError then
               Inr (result, log0 @ [LogError ''wrong stripe api_key''])
             else if e = APIConnectionError then
               Inr (result, log0 @ [LogErrorWith ''stripe connection error: '' e])
             else if is_Exception e then
               Inr (result, log0 @ [LogErrorWith ''stripe fetch unhandled exception: '' e])
             else Inl e)"

section \<open>Construction of the provider\<close>

record StripeConnectionParams =
  api_key :: "string option"
  max_network_retries :: "int option"
  log_level :: "string option"
  enable_telemetry :: "bool option"

text \<open>The field defaults of the connection parameters, as the source declares them.\<close>

definition StripeConnectionParams_default :: StripeConnectionParams where
  "StripeConnectionParams_default =
     \<lparr> api_key = None, max_network_retries = Some 2, log_level = Some ''info'',
       enable_telemetry = Some True \<rparr>"

definition StripeRequestParams_default :: StripeRequestParams where
  "StripeRequestParams_default =
     \<lparr> stripe_account = None, stripe_version = None, expand = None \<rparr>"

record StripeFetcherConfig =
  connection_params :: StripeConnectionParams
  request_params :: "StripeRequestParams option"

record FetchEvent =
  url :: string
  config :: "StripeFetcherConfig option"

text \<open>\<open>connection_params.dict(exclude_none=True)\<close>: the fields that are set, in field order.\<close>

definition connection_params_dict :: "StripeConnectionParams \<Rightarrow> pyval" where
  "connection_params_dict p =
     PDict (
       (case api_key p of None \<Rightarrow> [] | Some k \<Rightarrow> [(PStr ''api_key'', PStr k)]) @
       (case max_network_retries p of None \<Rightarrow> []
          | Some n \<Rightarrow> [(PStr ''max_network_retries'', PInt n)]) @
       (case log_level p of None \<Rightarrow> [] | Some l \<Rightarrow> [(PStr ''log_level'', PStr l)]) @
       (case enable_telemetry p of None \<Rightarrow> []
          | Some b \<Rightarrow> [(PStr ''enable_telemetry'', PBool b)]))"

text \<open>The truth value of a Python value in a condition.\<close>

fun truthy :: "pyval \<Rightarrow> bool" where
  "truthy PNone = False"
| "truthy (PBool b) = b"
| "truthy (PInt n) = (n \<noteq> 0)"
| "truthy (PStr s) = (s \<noteq> [])"
| "truthy (PList xs) = (xs \<noteq> [])"
| "truthy (PDict kvs) = (kvs \<noteq> [])"

text \<open>
  The settings of the remote client, which are attributes of the client module and so
  shared by the whole process; and the state of a constructed provider, namely what the
  base class's constructor stores (the event and its url; the base class is the hosting
  framework's).
\<close>

record stripe_settings =
  stripe_api_key :: pyval
  stripe_max_network_retries :: pyval
  stripe_enable_telemetry :: pyval
  stripe_log :: pyval

record provider =
  provider_url :: string
  provider_config :: StripeFetcherConfig

text \<open>
  The constructor. With no config it logs and returns early, leaving the provider
  uninitialised (\<open>None\<close> below). Otherwise it fills in absent request parameters and copies
  the connection parameters into the client's settings.
\<close>

definition init ::
  "FetchEvent \<Rightarrow> stripe_settings \<Rightarrow> exn + (provider option \<times> stripe_settings \<times> log_line list)" where
  "init event settings =
     (case config event of
        None \<Rightarrow> Inr (None, settings, [LogError ''incomplete fetcher config!''])
      | Some cfg \<Rightarrow>
          (let cfg' = (if request_params cfg = None
                       then cfg\<lparr>request_params := Some StripeRequestParams_default\<rparr>
                       else cfg);
               self = \<lparr> provider_url = url event, provider_config = cfg' \<rparr>;
               cp = connection_params_dict (connection_params cfg')
           in
           bind_e (getitem cp ''api_key'') (\<lambda>k.
           let s1 = settings\<lparr>stripe_api_key := k\<rparr> in
           bind_e (getitem cp ''max_network_retries'') (\<lambda>n.
           let s2 = (if truthy n then s1\<lparr>stripe_max_network_retries := n\<rparr> else s1) in
           bind_e (getitem cp ''enable_telemetry'') (\<lambda>t.
           let s3 = (if truthy t then s2\<lparr>stripe_enable_telemetry := t\<rparr> else s2) in
           bind_e (getitem cp ''log_level'') (\<lambda>l.
           let s4 = (if truthy l then s3\<lparr>stripe_log := l\<rparr> else s3) in
           Inr (Some self, s4, [])))))))"

section \<open>The dispatch rule as the specification words it\<close>

text \<open>
  The specification describes the kind test as case-insensitive substring containment.
  This is that test, for comparison with the test the source performs: both strings are
  lowered (ASCII letters) before the containment check.
\<close>

definition lower_char :: "char \<Rightarrow> char" where
  "lower_char c =
     (let n = (of_char c :: nat) in if 65 \<le> n \<and> n \<le> 90 then char_of (n + 32) else c)"

definition spec_contains_ci :: "string \<Rightarrow> string \<Rightarrow> bool" where
  "spec_contains_ci s t = sublist (map lower_char s) (map lower_char t)"

section \<open>Shape of the aggregate and example records\<close>

text \<open>
  Every top-level entry the aggregation loop stores is a dictionary with exactly one
  field: \<open>{"id": ...}\<close> from an account record, or one sub-collection, itself a
  dictionary, from an invoice, a subscription or a payment.
\<close>

fun entry_shape :: "pyval \<Rightarrow> bool" where
  "entry_shape (PDict [(PStr k, v)]) =
     (k = ''id'' \<or>
      ((k = ''products'' \<or> k = ''subscriptions'' \<or> k = ''payments'') \<and>
       (case v of PDict d \<Rightarrow> True | _ \<Rightarrow> False)))"
| "entry_shape v = False"

text \<open>
  An aggregate is well shaped when every entry has that shape and no two keys are equal
  as dictionary keys.
\<close>

definition well_shaped :: "(pyval \<times> pyval) list \<Rightarrow> bool" where
  "well_shaped acc \<longleftrightarrow>
     list_all (\<lambda>kv. entry_shape (snd kv)) acc \<and> distinct (map (key_norm \<circ> fst) acc)"

text \<open>
  Records as the remote API returns them, for the examples: an account record, an invoice
  with its line items, and a subscription or payment record (they have the same fields).
\<close>

definition account_record :: "string \<Rightarrow> string \<Rightarrow> pyval" where
  "account_record email rid =
     PDict [(PStr ''object'', PStr ''customer''), (PStr ''email'', PStr email),
            (PStr ''id'', PStr rid)]"

definition line_item :: "string \<Rightarrow> string \<Rightarrow> int \<Rightarrow> string \<Rightarrow> pyval" where
  "line_item product ty amount description =
     PDict [(PStr ''price'', PDict [(PStr ''product'', PStr product)]),
            (PStr ''type'', PStr ty), (PStr ''amount'', PInt amount),
            (PStr ''description'', PStr description)]"

definition invoice_record :: "string \<Rightarrow> string \<Rightarrow> string \<Rightarrow> pyval list \<Rightarrow> pyval" where
  "invoice_record obj customer status items =
     PDict [(PStr ''object'', PStr obj), (PStr ''customer'', PStr customer),
            (PStr ''status'', PStr status),
            (PStr ''lines'', PDict [(PStr ''data'', PList items)])]"

definition status_record :: "string \<Rightarrow> string \<Rightarrow> string \<Rightarrow> string \<Rightarrow> pyval" where
  "status_record obj customer rid status =
     PDict [(PStr ''object'', PStr obj), (PStr ''customer'', PStr customer),
            (PStr ''id'', PStr rid), (PStr ''status'', PStr status)]"

text \<open>The three records of the end-to-end scenario of the specification.\<close>

definition scenario :: "pyval list" where
  "scenario =
     [account_record ''a@x.com'' ''cus_1'',
      invoice_record ''invoice'' ''cus_1'' ''paid''
        [line_item ''prod_1'' ''invoiceitem'' 500 ''Widget''],
      status_record ''subscription'' ''cus_1'' ''sub_1'' ''active'']"

text \<open>The stored form of a line item.\<close>

definition product_entry :: "string \<Rightarrow> int \<Rightarrow> string \<Rightarrow> pyval" where
  "product_entry ty amount description =
     PDict [(PStr ''type'', PStr ty), (PStr ''amount'', PInt amount),
            (PStr ''description'', PStr description)]"

section \<open>Basic facts\<close>

lemma bind_e_simps [simp]:
  "bind_e (Inr x) f = f x"
  "bind_e (Inl e) f = Inl e"
  by (simp_all add: bind_e_def)

lemmas eval_defs =
  process_def process_record_def update_customer_record_def extend_existing_def
  parse_invoice_lines_def parse_invoice_line_def iter_def contains_def getitem_def
  account_record_def line_item_def invoice_record_def status_record_def product_entry_def
  sublist_Cons_right

section \<open>The retry policy\<close>

declare attempt_from.simps [simp del]

lemma attempt_from_final:
  "\<not> retry cfg (operation n) \<Longrightarrow> attempt_from cfg operation n = (operation n, n)"
  by (subst attempt_from.simps) (simp add: Let_def)

lemma attempt_from_again:
  "retry cfg (operation n) \<Longrightarrow> n < stop_after_attempt cfg \<Longrightarrow>
   attempt_from cfg operation n = attempt_from cfg operation (Suc n)"
  by (subst attempt_from.simps) (simp add: Let_def)

lemma attempt_from_exhausted:
  "retry cfg (operation n) \<Longrightarrow> stop_after_attempt cfg \<le> n \<Longrightarrow> reraise cfg \<Longrightarrow>
   operation n = Inl e \<Longrightarrow> attempt_from cfg operation n = (Inl e, n)"
  by (subst attempt_from.simps) (simp add: Let_def)

lemma attempt_from_counts: "n \<le> snd (attempt_from cfg operation n)"
proof (induction cfg operation n rule: attempt_from.induct)
  case (1 cfg operation n)
  show ?case
  proof (cases "retry cfg (operation n) \<and> \<not> stop_after_attempt cfg \<le> n")
    case True
    with "1.IH" [OF refl] have "Suc n \<le> snd (attempt_from cfg operation (Suc n))" by simp
    moreover from True have "attempt_from cfg operation n = attempt_from cfg operation (Suc n)"
      by (simp add: attempt_from_again)
    ultimately show ?thesis by simp
  next
    case False
    then show ?thesis by (subst attempt_from.simps) (auto simp: Let_def)
  qed
qed

lemma retry_RETRY_CONFIG:
  "retry RETRY_CONFIG (Inl e) = (\<not> is_StripeError e)"
  by (simp add: RETRY_CONFIG_def retry_unless_exception_type_def)

lemma attempt_from_all_retryable:
  assumes "\<forall>k. n \<le> k \<and> k \<le> 10 \<longrightarrow> (\<exists>e. operation k = Inl e \<and> \<not> is_StripeError e)"
    and "n \<le> 10"
  shows "attempt_from RETRY_CONFIG operation n = (operation 10, 10)"
  using assms
proof (induction "10 - n" arbitrary: n)
  case 0
  then have n: "n = 10" by simp
  from "0.prems" n obtain e where e: "operation 10 = Inl e" "\<not> is_StripeError e" by auto
  show ?case unfolding n
    using e by (simp add: attempt_from_exhausted [where e = e] retry_RETRY_CONFIG RETRY_CONFIG_def
        retry_unless_exception_type_def)
next
  case (Suc d)
  then have lt: "n < 10" by simp
  from Suc.prems obtain e where e: "operation n = Inl e" "\<not> is_StripeError e" by auto
  have again: "attempt_from RETRY_CONFIG operation n = attempt_from RETRY_CONFIG operation (Suc n)"
    using e lt
    by (intro attempt_from_again) (simp_all add: RETRY_CONFIG_def retry_unless_exception_type_def)
  have "attempt_from RETRY_CONFIG operation (Suc n) = (operation 10, 10)"
    using Suc.hyps Suc.prems lt by (intro Suc.hyps(1)) auto
  with again show ?case by simp
qed

text \<open>
  C9. An operation that raises, on each of its attempts, an error the policy retries (one
  outside the \<open>StripeError\<close> family) is invoked exactly 10 times, and the caller then
  observes the error of the tenth attempt itself, not a wrapper.
\<close>

theorem retry_exhaustion_ten_attempts:
  assumes "\<forall>n. 1 \<le> n \<and> n \<le> 10 \<longrightarrow> (\<exists>e. operation n = Inl e \<and> \<not> is_StripeError e)"
  shows "\<exists>e. operation 10 = Inl e \<and> execute RETRY_CONFIG operation = (Inl e, 10)"
proof -
  have "attempt_from RETRY_CONFIG operation 1 = (operation 10, 10)"
    using assms by (intro attempt_from_all_retryable) auto
  moreover from assms obtain e where "operation 10 = Inl e" by auto
  ultimately show ?thesis by (auto simp: execute_def)
qed

theorem retry_exhaustion_ten_attempts_witness:
  "execute RETRY_CONFIG (\<lambda>n. Inl (OtherException ''TimeoutError'') :: exn + pyval)
     = (Inl (OtherException ''TimeoutError''), 10)"
  using retry_exhaustion_ten_attempts [of "\<lambda>n. Inl (OtherException ''TimeoutError'') :: exn + pyval"]
  by simp

text \<open>
  C8, as stated, fails: an operation that raises a generic remote API error is invoked
  once and the error is re-raised at once, because the configuration exempts the whole
  \<open>StripeError\<close> family from retrying, not only authentication failures.
\<close>

theorem generic_remote_error_not_retried:
  "execute RETRY_CONFIG (\<lambda>n. Inl StripeError :: exn + pyval) = (Inl StripeError, 1)"
  by (simp add: execute_def attempt_from_final retry_RETRY_CONFIG)

text \<open>
  C8, amended. An operation whose first attempt raises an error of the \<open>StripeError\<close>
  family (generic, authentication or connectivity) is invoked once and that error is
  re-raised; an operation whose first attempt raises any other error is attempted again.
\<close>

theorem retry_only_outside_StripeError:
  assumes "operation 1 = Inl e"
  shows "(is_StripeError e \<longrightarrow> execute RETRY_CONFIG operation = (Inl e, 1)) \<and>
         (\<not> is_StripeError e \<longrightarrow> 2 \<le> snd (execute RETRY_CONFIG operation))"
proof (intro conjI impI)
  assume "is_StripeError e"
  with assms show "execute RETRY_CONFIG operation = (Inl e, 1)"
    by (simp add: execute_def attempt_from_final retry_RETRY_CONFIG)
next
  assume "\<not> is_StripeError e"
  with assms
  have "attempt_from RETRY_CONFIG operation 1 = attempt_from RETRY_CONFIG operation (Suc 1)"
    by (intro attempt_from_again) (simp_all add: retry_RETRY_CONFIG, simp add: RETRY_CONFIG_def)
  moreover have "Suc 1 \<le> snd (attempt_from RETRY_CONFIG operation (Suc 1))"
    by (rule attempt_from_counts)
  ultimately show "2 \<le> snd (execute RETRY_CONFIG operation)"
    by (simp add: execute_def)
qed

theorem retry_only_outside_StripeError_witness:
  "execute RETRY_CONFIG (\<lambda>n. Inl AuthenticationError :: exn + pyval)
     = (Inl AuthenticationError, 1) \<and>
   2 \<le> snd (execute RETRY_CONFIG (\<lambda>n. Inl TypeError :: exn + pyval))"
  using retry_only_outside_StripeError
          [of "\<lambda>n. Inl AuthenticationError :: exn + pyval" AuthenticationError]
    retry_only_outside_StripeError [of "\<lambda>n. Inl TypeError :: exn + pyval" TypeError]
  by simp

section \<open>The fetch method\<close>

text \<open>
  C7. For every client, resource name and request parameters the fetch method returns:
  whatever the \<open>try\<close> block raises is caught, a diagnostic line is logged after the debug
  line, and the result is the empty record sequence. An unknown resource name is one such
  case, with its own message.
\<close>

theorem fetch_never_raises:
  "(\<exists>records lg. fetch client name params = Inr (records, lg)) \<and>
   (\<forall>e. fetch_try client name (request_params_dict params) = Inl e \<longrightarrow>
      (\<exists>line. fetch client name params =
         Inr (PList [], [LogDebug (''StripeFetchProvider fetching from '' @ name), line]) \<and>
         (\<exists>msg. line = LogError msg \<or> line = LogErrorWith msg e))) \<and>
   (client name = None \<longrightarrow>
      fetch client name params =
        Inr (PList [], [LogDebug (''StripeFetchProvider fetching from '' @ name),
                        LogError wrong_resource_message]))"
  by (auto simp: fetch_def fetch_try_def is_Exception_def Let_def split: sum.splits)

theorem fetch_never_raises_witness:
  "fetch (\<lambda>name. None) ''NotARealResource'' StripeRequestParams_default =
     Inr (PList [], [LogDebug ''StripeFetchProvider fetching from NotARealResource'',
                     LogError wrong_resource_message]) \<and>
   (\<exists>line. fetch (\<lambda>name. Some (Resource (\<lambda>kw. Inl StripeError))) ''Customer''
              StripeRequestParams_default =
      Inr (PList [], [LogDebug ''StripeFetchProvider fetching from Customer'', line]))"
  using fetch_never_raises [of "\<lambda>name. None" "''NotARealResource''" StripeRequestParams_default]
    fetch_never_raises [of "\<lambda>name. Some (Resource (\<lambda>kw. Inl StripeError))" "''Customer''"
      StripeRequestParams_default]
  by (auto simp: fetch_try_def)

section \<open>Construction\<close>

text \<open>
  C10. Constructing the provider from an event whose connection parameters have no
  \<open>api_key\<close> fails: the constructor raises \<open>KeyError\<close> for that key, whatever the client's
  settings were.
\<close>

theorem init_without_api_key_fails:
  assumes "config event = Some cfg" and "api_key (connection_params cfg) = None"
  shows "init event settings = Inl (KeyError (PStr ''api_key''))"
  using assms
  by (simp add: init_def connection_params_dict_def getitem_def Let_def split: option.splits)

theorem init_without_api_key_fails_witness:
  "init \<lparr> url = ''Customer'',
          config = Some \<lparr> connection_params = StripeConnectionParams_default,
                          request_params = None \<rparr> \<rparr>
        \<lparr> stripe_api_key = PNone, stripe_max_network_retries = PInt 0,
          stripe_enable_telemetry = PBool True, stripe_log = PNone \<rparr>
     = Inl (KeyError (PStr ''api_key''))"
  using init_without_api_key_fails [of "\<lparr> url = ''Customer'',
          config = Some \<lparr> connection_params = StripeConnectionParams_default,
                          request_params = None \<rparr> \<rparr>"
      "\<lparr> connection_params = StripeConnectionParams_default, request_params = None \<rparr>"]
  by (simp add: StripeConnectionParams_default_def)

section \<open>The aggregator on the end-to-end scenario\<close>

text \<open>
  C2. On the three records of the end-to-end scenario the aggregation does not return:
  the account record is stored under its email, the invoice creates the entry of
  \<open>cus_1\<close> with only \<open>products\<close>, and the subscription then looks up \<open>subscriptions\<close> in
  that entry, which raises \<open>KeyError\<close>.
\<close>

theorem scenario_raises_KeyError:
  "process scenario = Inl (KeyError (PStr ''subscriptions''))"
  by (simp add: scenario_def eval_defs)

section \<open>The aggregation loop\<close>

lemma bind_e_eq_Inr: "bind_e m f = Inr y \<longleftrightarrow> (\<exists>x. m = Inr x \<and> f x = Inr y)"
  by (cases m) simp_all

lemma dict_get_dict_set:
  "dict_get (dict_set kvs k v) k' = (if key_norm k' = key_norm k then Some v else dict_get kvs k')"
  by (induction kvs) auto

lemma getitem_set_object:
  "getitem (PDict (dict_set kvs (PStr ''object'') v)) ''object'' = Inr v"
  "k \<noteq> ''object'' \<Longrightarrow> getitem (PDict (dict_set kvs (PStr ''object'') v)) k = getitem (PDict kvs) k"
  by (simp_all add: getitem_def dict_get_dict_set)

lemma process_loop_append:
  "process_loop acc (xs @ ys) = bind_e (process_loop acc xs) (\<lambda>acc'. process_loop acc' ys)"
proof (induction xs arbitrary: acc)
  case Nil
  show ?case by simp
next
  case (Cons x xs)
  show ?case by (cases "process_record acc x") (simp_all add: Cons.IH)
qed

lemma process_loop_skip:
  assumes "\<And>a. process_record a r = Inr a"
  shows "process_loop acc (rs @ r # rest) = process_loop acc (rs @ rest)"
  by (simp add: process_loop_append assms)

lemma kind_literals:
  "\<not> sublist ''customer'' ''invoice''"
  "\<not> sublist ''customer'' ''subscription''"
  "\<not> sublist ''customer'' ''payment_intent''"
  "\<not> sublist ''invoice'' ''subscription''"
  "\<not> sublist ''invoice'' ''payment_intent''"
  "\<not> sublist ''subscription'' ''payment_intent''"
  by (simp_all add: sublist_Cons_right)

lemma update_customer_record_set_object:
  "update_customer_record acc (PDict (dict_set kvs (PStr ''object'') v)) rt d =
   update_customer_record acc (PDict kvs) rt d"
  by (simp add: update_customer_record_def getitem_set_object cong: if_cong option.case_cong)

lemma contains_PStr: "contains x (PStr t) = Inr (sublist x t)"
  by (simp add: contains_def)

text \<open>
  C4, as stated, fails: the containment test is case-sensitive. A paid invoice whose
  discriminator is \<open>Invoice\<close> matches \<open>invoice\<close> when case is ignored, yet it is skipped,
  while the same record with \<open>invoice\<close> creates the customer's entry.
\<close>

theorem dispatch_is_case_sensitive:
  "spec_contains_ci ''invoice'' ''Invoice'' \<and>
   process [invoice_record ''Invoice'' ''cus_1'' ''paid''
              [line_item ''prod_1'' ''invoiceitem'' 500 ''Widget'']] = Inr [] \<and>
   process [invoice_record ''invoice'' ''cus_1'' ''paid''
              [line_item ''prod_1'' ''invoiceitem'' 500 ''Widget'']] =
     Inr [(PStr ''cus_1'', PDict [(PStr ''products'',
            PDict [(PStr ''prod_1'', product_entry ''invoiceitem'' 500 ''Widget'')])])]"
proof (intro conjI)
  show "spec_contains_ci ''invoice'' ''Invoice''"
    by code_simp
qed (simp_all add: eval_defs)

text \<open>
  C4, amended. The record's kind is decided by substring containment as Python's \<open>in\<close>
  tests it, which is case-sensitive, against \<open>customer\<close>, \<open>invoice\<close>, \<open>subscription\<close>
  and \<open>payment_intent\<close> in this order: a record is handled exactly as the same record
  whose \<open>object\<close> is the first kind its discriminator contains, and a record whose
  discriminator contains none of the four is skipped, wherever it stands in the sequence.
\<close>

theorem dispatch_by_case_sensitive_containment:
  assumes "dict_get kvs (PStr ''object'') = Some (PStr s)"
  shows
   "(sublist ''customer'' s \<longrightarrow>
       process_record acc (PDict kvs) =
       process_record acc (PDict (dict_set kvs (PStr ''object'') (PStr ''customer'')))) \<and>
    (\<not> sublist ''customer'' s \<and> sublist ''invoice'' s \<longrightarrow>
       process_record acc (PDict kvs) =
       process_record acc (PDict (dict_set kvs (PStr ''object'') (PStr ''invoice'')))) \<and>
    (\<not> sublist ''customer'' s \<and> \<not> sublist ''invoice'' s \<and> sublist ''subscription'' s \<longrightarrow>
       process_record acc (PDict kvs) =
       process_record acc (PDict (dict_set kvs (PStr ''object'') (PStr ''subscription'')))) \<and>
    (\<not> sublist ''customer'' s \<and> \<not> sublist ''invoice'' s \<and> \<not> sublist ''subscription'' s \<and>
     sublist ''payment_intent'' s \<longrightarrow>
       process_record acc (PDict kvs) =
       process_record acc (PDict (dict_set kvs (PStr ''object'') (PStr ''payment_intent'')))) \<and>
    (\<not> sublist ''customer'' s \<and> \<not> sublist ''invoice'' s \<and> \<not> sublist ''subscription'' s \<and>
     \<not> sublist ''payment_intent'' s \<longrightarrow>
       process_loop acc (rs @ PDict kvs # rest) = process_loop acc (rs @ rest))"
proof -
  have obj: "getitem (PDict kvs) ''object'' = Inr (PStr s)"
    using assms by (simp add: getitem_def)
  have skip: "process_loop acc (rs @ PDict kvs # rest) = process_loop acc (rs @ rest)"
    if "\<not> sublist ''customer'' s" "\<not> sublist ''invoice'' s" "\<not> sublist ''subscription'' s"
      "\<not> sublist ''payment_intent'' s"
  proof (rule process_loop_skip)
    fix a show "process_record a (PDict kvs) = Inr a"
      using that by (simp add: process_record_def obj contains_PStr)
  qed
  show ?thesis
    using skip
    by (simp add: process_record_def obj contains_PStr getitem_set_object kind_literals
        update_customer_record_set_object cong: if_cong)
qed

theorem dispatch_by_case_sensitive_containment_witness:
  "process [status_record ''charge.refund'' ''cus_1'' ''re_1'' ''succeeded''] = Inr [] \<and>
   process_record []
     (PDict [(PStr ''object'', PStr ''customer.subscription''), (PStr ''email'', PStr ''a@x.com''),
             (PStr ''id'', PStr ''cus_1''), (PStr ''customer'', PStr ''cus_9''),
             (PStr ''status'', PStr ''active'')])
     = Inr [(PStr ''a@x.com'', PDict [(PStr ''id'', PStr ''cus_1'')])]"
  using dispatch_by_case_sensitive_containment
     [where kvs = "[(PStr ''object'', PStr ''charge.refund''), (PStr ''customer'', PStr ''cus_1''),
            (PStr ''id'', PStr ''re_1''), (PStr ''status'', PStr ''succeeded'')]"
        and s = "''charge.refund''" and acc = "[]" and rs = "[]" and rest = "[]"]
    dispatch_by_case_sensitive_containment
     [where kvs = "[(PStr ''object'', PStr ''customer.subscription''), (PStr ''email'', PStr ''a@x.com''),
             (PStr ''id'', PStr ''cus_1''), (PStr ''customer'', PStr ''cus_9''),
             (PStr ''status'', PStr ''active'')]"
        and s = "''customer.subscription''" and acc = "[]"]
  by (simp add: eval_defs)

text \<open>
  C5. A record that is dispatched as an invoice, a subscription or a payment and whose
  status does not contain \<open>paid\<close>, \<open>active\<close> or \<open>succeeded\<close> respectively is skipped:
  the aggregation of a sequence with the record equals that of the sequence without it.
  So only records that pass their filter contribute.
\<close>

theorem status_filter_skips:
  assumes "getitem r ''object'' = Inr (PStr s)" and "\<not> sublist ''customer'' s"
    and "getitem r ''status'' = Inr st"
    and "(sublist ''invoice'' s \<and> contains ''paid'' st = Inr False) \<or>
         (\<not> sublist ''invoice'' s \<and> sublist ''subscription'' s \<and>
            contains ''active'' st = Inr False) \<or>
         (\<not> sublist ''invoice'' s \<and> \<not> sublist ''subscription'' s \<and>
            sublist ''payment_intent'' s \<and> contains ''succeeded'' st = Inr False)"
  shows "process_loop acc (rs @ r # rest) = process_loop acc (rs @ rest)"
proof (rule process_loop_skip)
  fix a
  from assms(4) show "process_record a r = Inr a"
    using assms(1-3) by (auto simp: process_record_def contains_PStr)
qed

theorem status_filter_skips_witness:
  "process [invoice_record ''invoice'' ''cus_1'' ''open'' [line_item ''prod_0'' ''invoiceitem'' 100 ''Gadget''],
            invoice_record ''invoice'' ''cus_1'' ''paid'' [line_item ''prod_1'' ''invoiceitem'' 500 ''Widget'']]
     = Inr [(PStr ''cus_1'', PDict [(PStr ''products'',
              PDict [(PStr ''prod_1'', product_entry ''invoiceitem'' 500 ''Widget'')])])] \<and>
   process [status_record ''subscription'' ''cus_1'' ''sub_1'' ''canceled''] = Inr [] \<and>
   process [status_record ''payment_intent'' ''cus_1'' ''pi_1'' ''processing''] = Inr []"
  using status_filter_skips
     [where r = "invoice_record ''invoice'' ''cus_1'' ''open'' [line_item ''prod_0'' ''invoiceitem'' 100 ''Gadget'']"
        and s = "''invoice''" and st = "PStr ''open''" and acc = "[]" and rs = "[]"
        and rest = "[invoice_record ''invoice'' ''cus_1'' ''paid'' [line_item ''prod_1'' ''invoiceitem'' 500 ''Widget'']]"]
    status_filter_skips
     [where r = "status_record ''subscription'' ''cus_1'' ''sub_1'' ''canceled''"
        and s = "''subscription''" and st = "PStr ''canceled''" and acc = "[]" and rs = "[]" and rest = "[]"]
    status_filter_skips
     [where r = "status_record ''payment_intent'' ''cus_1'' ''pi_1'' ''processing''"
        and s = "''payment_intent''" and st = "PStr ''processing''" and acc = "[]" and rs = "[]" and rest = "[]"]
  by (simp add: eval_defs)




lemma dict_get_None_iff: "dict_get kvs k = None \<longleftrightarrow> key_norm k \<notin> set (map (key_norm \<circ> fst) kvs)"
  by (induction kvs) (auto split: if_splits)

lemma keys_dict_set:
  "map (key_norm \<circ> fst) (dict_set kvs k v) =
     (if dict_get kvs k = None then map (key_norm \<circ> fst) kvs @ [key_norm k]
      else map (key_norm \<circ> fst) kvs)"
  by (induction kvs) (auto split: if_splits)

lemma distinct_dict_set:
  "distinct (map (key_norm \<circ> fst) kvs) \<Longrightarrow> distinct (map (key_norm \<circ> fst) (dict_set kvs k v))"
  by (simp add: keys_dict_set dict_get_None_iff)

lemma shape_dict_set:
  "list_all (\<lambda>kv. entry_shape (snd kv)) kvs \<Longrightarrow> entry_shape v \<Longrightarrow>
   list_all (\<lambda>kv. entry_shape (snd kv)) (dict_set kvs k v)"
  by (induction kvs) auto

lemma shape_dict_get:
  "list_all (\<lambda>kv. entry_shape (snd kv)) kvs \<Longrightarrow> dict_get kvs k = Some entry \<Longrightarrow> entry_shape entry"
  by (induction kvs) (auto split: if_splits)

lemma extend_existing_raises:
  assumes "entry_shape entry" and "rt \<noteq> ''id''"
  shows "extend_existing cs c entry rt d = Inl AttributeError \<or>
         extend_existing cs c entry rt d = Inl (KeyError (PStr rt))"
  using assms
  by (cases entry rule: entry_shape.cases)
     (auto simp: extend_existing_def getitem_def split: pyval.splits)

lemma update_customer_record_cases:
  assumes "well_shaped acc" and "rt = ''products'' \<or> rt = ''subscriptions'' \<or> rt = ''payments''"
    and "update_customer_record acc r rt data = Inr acc'"
  shows "\<exists>c d. acc' = acc @ [(c, PDict [(PStr rt, PDict d)])] \<and> dict_get acc c = None \<and>
               getitem r ''customer'' = Inr c \<and> hashable c"
proof -
  from assms(3) obtain c d where c: "getitem r ''customer'' = Inr c" and h: "hashable c"
    and res: "(case dict_get acc c of
                 Some entry \<Rightarrow> extend_existing acc c entry rt d
               | None \<Rightarrow> Inr (acc @ [(c, PDict [(PStr rt, PDict d)])])) = Inr acc'"
    by (auto simp: update_customer_record_def bind_e_eq_Inr split: if_splits)
  show ?thesis
  proof (cases "dict_get acc c")
    case None
    with res c h show ?thesis by auto
  next
    case (Some entry)
    with assms(1) have "entry_shape entry" by (auto simp: well_shaped_def dest: shape_dict_get)
    moreover from assms(2) have "rt \<noteq> ''id''" by auto
    ultimately have "extend_existing acc c entry rt d = Inl AttributeError \<or>
         extend_existing acc c entry rt d = Inl (KeyError (PStr rt))"
      by (rule extend_existing_raises)
    with res Some show ?thesis by auto
  qed
qed

lemma well_shaped_update:
  assumes "well_shaped acc" and "rt = ''products'' \<or> rt = ''subscriptions'' \<or> rt = ''payments''"
    and "update_customer_record acc r rt data = Inr acc'"
  shows "well_shaped acc'"
proof -
  from update_customer_record_cases [OF assms] obtain c d
    where "acc' = acc @ [(c, PDict [(PStr rt, PDict d)])]" "dict_get acc c = None" by blast
  with assms(1,2) show ?thesis
    by (auto simp: well_shaped_def dict_get_None_iff)
qed

lemma process_record_cases:
  assumes "process_record acc r = Inr acc'"
  shows "(\<exists>email rid. hashable email \<and> acc' = dict_set acc email (PDict [(PStr ''id'', rid)])) \<or>
         acc' = acc \<or>
         (\<exists>rt data. (rt = ''products'' \<or> rt = ''subscriptions'' \<or> rt = ''payments'') \<and>
            update_customer_record acc r rt data = Inr acc')"
  using assms
  by (auto simp: process_record_def bind_e_eq_Inr split: if_splits)

lemma well_shaped_process_record:
  assumes "well_shaped acc" and "process_record acc r = Inr acc'"
  shows "well_shaped acc'"
proof -
  from process_record_cases [OF assms(2)]
  consider (account) email rid where "acc' = dict_set acc email (PDict [(PStr ''id'', rid)])"
    | (skip) "acc' = acc"
    | (update) rt data where "rt = ''products'' \<or> rt = ''subscriptions'' \<or> rt = ''payments''"
        "update_customer_record acc r rt data = Inr acc'"
    by blast
  then show ?thesis
  proof cases
    case account
    with assms(1) show ?thesis
      by (simp add: well_shaped_def distinct_dict_set shape_dict_set)
  next
    case skip
    with assms(1) show ?thesis by simp
  next
    case update
    with assms(1) show ?thesis by (blast intro: well_shaped_update)
  qed
qed

lemma well_shaped_process_loop:
  "well_shaped acc \<Longrightarrow> process_loop acc rs = Inr acc' \<Longrightarrow> well_shaped acc'"
proof (induction rs arbitrary: acc)
  case Nil
  then show ?case by simp
next
  case (Cons r rs)
  then show ?case
    by (auto simp: bind_e_eq_Inr dest: well_shaped_process_record)
qed

lemma well_shaped_process: "process rs = Inr agg \<Longrightarrow> well_shaped agg"
  by (rule well_shaped_process_loop [of "[]"]) (simp_all add: well_shaped_def process_def)

lemma update_customer_record_Some:
  assumes "getitem r ''customer'' = Inr c" and "hashable c"
  shows "update_customer_record acc r rt (Some d) =
     (case dict_get acc c of
        Some entry \<Rightarrow> extend_existing acc c entry rt d
      | None \<Rightarrow> Inr (acc @ [(c, PDict [(PStr rt, PDict d)])]))"
  using assms by (simp add: update_customer_record_def)

lemma update_customer_record_None:
  assumes "getitem r ''customer'' = Inr c" and "hashable c"
    and "getitem r ''id'' = Inr rid" and "hashable rid" and "getitem r ''status'' = Inr st"
  shows "update_customer_record acc r rt None =
     (case dict_get acc c of
        Some entry \<Rightarrow> extend_existing acc c entry rt [(rid, st)]
      | None \<Rightarrow> Inr (acc @ [(c, PDict [(PStr rt, PDict [(rid, st)])])]))"
  using assms by (simp add: update_customer_record_def)

lemma update_customer_record_empty:
  assumes "update_customer_record [] r rt data = Inr [(c, PDict [(PStr rt', PDict d)])]"
  shows "rt' = rt \<and> getitem r ''customer'' = Inr c \<and> hashable c \<and>
     (case data of
        Some d' \<Rightarrow> d' = d
      | None \<Rightarrow> (\<exists>rid st. getitem r ''id'' = Inr rid \<and> hashable rid \<and>
                   getitem r ''status'' = Inr st \<and> d = [(rid, st)]))"
  using assms
  by (cases data) (auto simp: update_customer_record_def bind_e_eq_Inr split: if_splits)

lemma contribution_record:
  assumes "process_record [] r = Inr [(c, PDict [(PStr rt, PDict d)])]" and "rt \<noteq> ''id''"
  shows "process_record acc r =
     (case dict_get acc c of
        Some entry \<Rightarrow> extend_existing acc c entry rt d
      | None \<Rightarrow> Inr (acc @ [(c, PDict [(PStr rt, PDict d)])]))"
    and "rt = ''products'' \<or> rt = ''subscriptions'' \<or> rt = ''payments''"
proof -
  from assms(1) obtain obj where obj: "getitem r ''object'' = Inr obj"
    by (auto simp: process_record_def bind_e_eq_Inr)
  from assms(1) obj obtain b1 where b1: "contains ''customer'' obj = Inr b1"
    by (auto simp: process_record_def bind_e_eq_Inr)
  have nb1: "\<not> b1"
    using assms obj b1 by (auto simp: process_record_def bind_e_eq_Inr split: if_splits)
  from assms(1) obj b1 nb1 obtain b2 where b2: "contains ''invoice'' obj = Inr b2"
    by (auto simp: process_record_def bind_e_eq_Inr)
  show "process_record acc r =
     (case dict_get acc c of
        Some entry \<Rightarrow> extend_existing acc c entry rt d
      | None \<Rightarrow> Inr (acc @ [(c, PDict [(PStr rt, PDict d)])]))"
    and "rt = ''products'' \<or> rt = ''subscriptions'' \<or> rt = ''payments''"
  proof (atomize (full), cases b2)
    case True
    from assms(1) obj b1 nb1 b2 True obtain st l ld items
      where f: "getitem r ''status'' = Inr st" "contains ''paid'' st = Inr True"
        "getitem r ''lines'' = Inr l" "getitem l ''data'' = Inr ld"
        "parse_invoice_lines ld = Inr items"
        "update_customer_record [] r ''products'' (Some items) = Inr [(c, PDict [(PStr rt, PDict d)])]"
      by (auto simp: process_record_def bind_e_eq_Inr split: if_splits)
    from update_customer_record_empty [OF f(6)]
    have u: "rt = ''products''" "getitem r ''customer'' = Inr c" "hashable c" "items = d"
      by auto
    have "process_record acc r = update_customer_record acc r ''products'' (Some d)"
      using obj b1 nb1 b2 True f(1-5) u(4) by (simp add: process_record_def)
    with u show "(process_record acc r =
     (case dict_get acc c of
        Some entry \<Rightarrow> extend_existing acc c entry rt d
      | None \<Rightarrow> Inr (acc @ [(c, PDict [(PStr rt, PDict d)])]))) \<and>
     (rt = ''products'' \<or> rt = ''subscriptions'' \<or> rt = ''payments'')"
      by (simp add: update_customer_record_Some cong: option.case_cong)
  next
    case False
    from assms(1) obj b1 nb1 b2 False obtain b3 where b3: "contains ''subscription'' obj = Inr b3"
      by (auto simp: process_record_def bind_e_eq_Inr)
    show "(process_record acc r =
     (case dict_get acc c of
        Some entry \<Rightarrow> extend_existing acc c entry rt d
      | None \<Rightarrow> Inr (acc @ [(c, PDict [(PStr rt, PDict d)])]))) \<and>
     (rt = ''products'' \<or> rt = ''subscriptions'' \<or> rt = ''payments'')"
    proof (cases b3)
      case True
      from assms(1) obj b1 nb1 b2 False b3 True obtain st
        where f: "getitem r ''status'' = Inr st" "contains ''active'' st = Inr True"
          "update_customer_record [] r ''subscriptions'' None = Inr [(c, PDict [(PStr rt, PDict d)])]"
        by (auto simp: process_record_def bind_e_eq_Inr split: if_splits)
      from update_customer_record_empty [OF f(3)] f(1)
      obtain rid where u: "rt = ''subscriptions''" "getitem r ''customer'' = Inr c" "hashable c"
        "getitem r ''id'' = Inr rid" "hashable rid" "d = [(rid, st)]"
        by auto
      have "process_record acc r = update_customer_record acc r ''subscriptions'' None"
        using obj b1 nb1 b2 False b3 True f(1,2) by (simp add: process_record_def)
      with u f(1) show ?thesis
        by (simp add: update_customer_record_None [where rid = rid and st = st and c = c]
            cong: option.case_cong)
    next
      case nsub: False
      from assms(1) obj b1 nb1 b2 False b3 nsub obtain st
        where f: "contains ''payment_intent'' obj = Inr True"
          "getitem r ''status'' = Inr st" "contains ''succeeded'' st = Inr True"
          "update_customer_record [] r ''payments'' None = Inr [(c, PDict [(PStr rt, PDict d)])]"
        by (auto simp: process_record_def bind_e_eq_Inr split: if_splits)
      from update_customer_record_empty [OF f(4)] f(2)
      obtain rid where u: "rt = ''payments''" "getitem r ''customer'' = Inr c" "hashable c"
        "getitem r ''id'' = Inr rid" "hashable rid" "d = [(rid, st)]"
        by auto
      have "process_record acc r = update_customer_record acc r ''payments'' None"
        using obj b1 nb1 b2 False b3 nsub f(1-3) by (simp add: process_record_def)
      with u f(2) show ?thesis
        by (simp add: update_customer_record_None [where rid = rid and st = st and c = c]
            cong: option.case_cong)
    qed
  qed
qed

text \<open>
  C3. Let \<open>r\<close> be a qualifying invoice, subscription or payment record, that is, one
  which on the empty aggregate creates the entry \<open>{rt: d}\<close> of customer \<open>c\<close> for a
  sub-collection \<open>rt\<close>. If \<open>c\<close> is already a key of the aggregate built from the
  records before \<open>r\<close>, the aggregation raises: \<open>AttributeError\<close> from \<open>extend\<close> on the
  stored dictionary, or \<open>KeyError\<close> for the sub-collection the entry lacks.
\<close>

theorem existing_customer_raises:
  assumes "process xs = Inr agg"
    and "process_record [] r = Inr [(c, PDict [(PStr rt, PDict d)])]" and "rt \<noteq> ''id''"
    and "dict_get agg c = Some entry"
  shows "process (xs @ r # ys) = Inl AttributeError \<or>
         process (xs @ r # ys) = Inl (KeyError (PStr rt))"
proof -
  have "entry_shape entry"
    using well_shaped_process [OF assms(1)] assms(4)
    by (auto simp: well_shaped_def dest: shape_dict_get)
  then have "extend_existing agg c entry rt d = Inl AttributeError \<or>
      extend_existing agg c entry rt d = Inl (KeyError (PStr rt))"
    using assms(3) by (rule extend_existing_raises)
  moreover have "process_record agg r = extend_existing agg c entry rt d"
    using contribution_record(1) [OF assms(2,3), of agg] assms(4) by simp
  moreover have "process (xs @ r # ys) =
      bind_e (process_record agg r) (\<lambda>acc'. process_loop acc' ys)"
    using assms(1) by (simp add: process_def process_loop_append)
  ultimately show ?thesis by auto
qed

theorem existing_customer_raises_witness:
  "process [status_record ''subscription'' ''cus_1'' ''sub_1'' ''active'',
            status_record ''subscription'' ''cus_1'' ''sub_2'' ''active''] = Inl AttributeError \<and>
   process [invoice_record ''invoice'' ''cus_1'' ''paid'' [line_item ''prod_1'' ''invoiceitem'' 500 ''Widget''],
            status_record ''subscription'' ''cus_1'' ''sub_1'' ''active'']
     = Inl (KeyError (PStr ''subscriptions''))"
proof -
  have a: "process [status_record ''subscription'' ''cus_1'' ''sub_1'' ''active''] =
      Inr [(PStr ''cus_1'', PDict [(PStr ''subscriptions'', PDict [(PStr ''sub_1'', PStr ''active'')])])]"
    by (simp add: eval_defs)
  have b: "process [invoice_record ''invoice'' ''cus_1'' ''paid'' [line_item ''prod_1'' ''invoiceitem'' 500 ''Widget'']] =
      Inr [(PStr ''cus_1'', PDict [(PStr ''products'',
             PDict [(PStr ''prod_1'', product_entry ''invoiceitem'' 500 ''Widget'')])])]"
    by (simp add: eval_defs)
  have r: "process_record [] (status_record ''subscription'' ''cus_1'' ''sub_2'' ''active'') =
      Inr [(PStr ''cus_1'', PDict [(PStr ''subscriptions'', PDict [(PStr ''sub_2'', PStr ''active'')])])]"
    by (simp add: eval_defs)
  have r': "process_record [] (status_record ''subscription'' ''cus_1'' ''sub_1'' ''active'') =
      Inr [(PStr ''cus_1'', PDict [(PStr ''subscriptions'', PDict [(PStr ''sub_1'', PStr ''active'')])])]"
    by (simp add: eval_defs)
  show ?thesis
    using existing_customer_raises [OF a r, where ys = "[]"]
      existing_customer_raises [OF b r', where ys = "[]"]
    by (simp add: eval_defs)
qed

text \<open>
  C1, as stated, fails: a second account record with the same email replaces the first
  one's entry, an account record replaces the products stored under its key, and a second
  active subscription of a customer is not accumulated.
\<close>

theorem repeated_records_not_merged:
  "process [account_record ''a@x.com'' ''cus_1'', account_record ''a@x.com'' ''cus_2'']
     = Inr [(PStr ''a@x.com'', PDict [(PStr ''id'', PStr ''cus_2'')])] \<and>
   process [invoice_record ''invoice'' ''k'' ''paid'' [line_item ''prod_1'' ''invoiceitem'' 500 ''Widget''],
            account_record ''k'' ''cus_2'']
     = Inr [(PStr ''k'', PDict [(PStr ''id'', PStr ''cus_2'')])] \<and>
   process [status_record ''subscription'' ''cus_1'' ''sub_1'' ''active'',
            status_record ''subscription'' ''cus_1'' ''sub_2'' ''active'']
     = Inl AttributeError"
  by (simp add: eval_defs)

text \<open>
  C1, amended. In every aggregate that the aggregation returns, the keys are pairwise
  different, so a customer identifier has at most one top-level entry. An account record
  replaces whatever is stored under its key (its email) by \<open>{"id": <record id>}\<close> and
  leaves the other entries alone. A qualifying invoice, subscription or payment record
  whose customer has no entry yet appends a fresh entry holding only its contribution.
\<close>

theorem one_entry_per_key:
  assumes "process xs = Inr agg"
  shows
   "distinct (map (key_norm \<circ> fst) agg) \<and>
    (getitem r ''object'' = Inr obj \<and> contains ''customer'' obj = Inr True \<and>
     getitem r ''id'' = Inr rid \<and> getitem r ''email'' = Inr email \<and> hashable email \<longrightarrow>
       (\<exists>agg'. process (xs @ [r]) = Inr agg' \<and>
          dict_get agg' email = Some (PDict [(PStr ''id'', rid)]) \<and>
          (\<forall>k. key_norm k \<noteq> key_norm email \<longrightarrow> dict_get agg' k = dict_get agg k))) \<and>
    (process_record [] r' = Inr [(c, PDict [(PStr rt, PDict d)])] \<and> rt \<noteq> ''id'' \<and>
     dict_get agg c = None \<longrightarrow>
       process (xs @ [r']) = Inr (agg @ [(c, PDict [(PStr rt, PDict d)])]))"
proof (intro conjI impI)
  show "distinct (map (key_norm \<circ> fst) agg)"
    using well_shaped_process [OF assms] by (simp add: well_shaped_def)
next
  assume a: "getitem r ''object'' = Inr obj \<and> contains ''customer'' obj = Inr True \<and>
     getitem r ''id'' = Inr rid \<and> getitem r ''email'' = Inr email \<and> hashable email"
  then have "process_record agg r = Inr (dict_set agg email (PDict [(PStr ''id'', rid)]))"
    by (simp add: process_record_def)
  with assms have "process (xs @ [r]) = Inr (dict_set agg email (PDict [(PStr ''id'', rid)]))"
    by (simp add: process_def process_loop_append)
  then show "\<exists>agg'. process (xs @ [r]) = Inr agg' \<and>
          dict_get agg' email = Some (PDict [(PStr ''id'', rid)]) \<and>
          (\<forall>k. key_norm k \<noteq> key_norm email \<longrightarrow> dict_get agg' k = dict_get agg k)"
    by (simp add: dict_get_dict_set)
next
  assume b: "process_record [] r' = Inr [(c, PDict [(PStr rt, PDict d)])] \<and> rt \<noteq> ''id'' \<and>
     dict_get agg c = None"
  then have "process_record agg r' = Inr (agg @ [(c, PDict [(PStr rt, PDict d)])])"
    using contribution_record(1) [of r' c rt d agg] by simp
  with assms show "process (xs @ [r']) = Inr (agg @ [(c, PDict [(PStr rt, PDict d)])])"
    by (simp add: process_def process_loop_append)
qed

theorem one_entry_per_key_witness:
  "distinct (map (key_norm \<circ> fst) [(PStr ''a@x.com'', PDict [(PStr ''id'', PStr ''cus_1'')])]) \<and>
   (\<exists>agg'. process [account_record ''a@x.com'' ''cus_1'', account_record ''a@x.com'' ''cus_2'']
              = Inr agg' \<and>
      dict_get agg' (PStr ''a@x.com'') = Some (PDict [(PStr ''id'', PStr ''cus_2'')])) \<and>
   process [account_record ''a@x.com'' ''cus_1'',
            status_record ''subscription'' ''cus_1'' ''sub_1'' ''active'']
     = Inr [(PStr ''a@x.com'', PDict [(PStr ''id'', PStr ''cus_1'')]),
            (PStr ''cus_1'', PDict [(PStr ''subscriptions'',
               PDict [(PStr ''sub_1'', PStr ''active'')])])]"
proof -
  have a: "process [account_record ''a@x.com'' ''cus_1'']
      = Inr [(PStr ''a@x.com'', PDict [(PStr ''id'', PStr ''cus_1'')])]"
    by (simp add: eval_defs)
  have r: "process_record [] (status_record ''subscription'' ''cus_1'' ''sub_1'' ''active'') =
      Inr [(PStr ''cus_1'', PDict [(PStr ''subscriptions'', PDict [(PStr ''sub_1'', PStr ''active'')])])]"
    by (simp add: eval_defs)
  have g: "getitem (account_record ''a@x.com'' ''cus_2'') ''object'' = Inr (PStr ''customer'')"
    "contains ''customer'' (PStr ''customer'') = Inr True"
    "getitem (account_record ''a@x.com'' ''cus_2'') ''id'' = Inr (PStr ''cus_2'')"
    "getitem (account_record ''a@x.com'' ''cus_2'') ''email'' = Inr (PStr ''a@x.com'')"
    by (simp_all add: eval_defs)
  show ?thesis
    using one_entry_per_key [OF a, where r = "account_record ''a@x.com'' ''cus_2''"
        and obj = "PStr ''customer''" and rid = "PStr ''cus_2''" and email = "PStr ''a@x.com''"
        and r' = "status_record ''subscription'' ''cus_1'' ''sub_1'' ''active''"
        and c = "PStr ''cus_1''" and rt = "''subscriptions''"
        and d = "[(PStr ''sub_1'', PStr ''active'')]"]
      r g
    by auto
qed

end
